theory Spec2Isabelle
  imports Complex_Main
begin

section \<open>Python values\<close>

text \<open>
  The server (\<^verbatim>\<open>server/app.py\<close>) handles JSON values: the request body, the
  fragments of the Ollama stream and the records it writes. A value returned by
  \<^verbatim>\<open>json.loads\<close> or \<^verbatim>\<open>request.get_json\<close> is \<^verbatim>\<open>None\<close>, a bool, an int, a
  float, a str, a list or a dict with str keys. A dict is an association list, read with
  \<open>map_of\<close> (a parsed dict has each key once). A \<open>char\<close> stands for one character of
  a Python \<^verbatim>\<open>str\<close>, so \<open>length\<close> is Python's \<^verbatim>\<open>len\<close>; the characters covered
  are the code points U+0000 to U+00FF.
\<close>

datatype pyfloat = Finite real | PosInf | NegInf | NaN

datatype json =
    JNull
  | JBool bool
  | JInt int
  | JFloat pyfloat
  | JStr string
  | JList "json list"
  | JDict "(string \<times> json) list"

text \<open>Truth value of an object, as \<^verbatim>\<open>if x\<close>, \<^verbatim>\<open>not x\<close> and \<^verbatim>\<open>x or y\<close> test it.\<close>

fun truthy :: "json \<Rightarrow> bool" where
  "truthy JNull = False"
| "truthy (JBool b) = b"
| "truthy (JInt n) = (n \<noteq> 0)"
| "truthy (JFloat f) = (f \<noteq> Finite 0)"
| "truthy (JStr s) = (s \<noteq> [])"
| "truthy (JList xs) = (xs \<noteq> [])"
| "truthy (JDict kvs) = (kvs \<noteq> [])"

text \<open>\<^verbatim>\<open>x or y\<close>\<close>

definition py_or :: "json \<Rightarrow> json \<Rightarrow> json" where
  "py_or x y = (if truthy x then x else y)"

text \<open>
  The exceptions that can occur. \<open>AttributeError\<close> and \<open>TypeError\<close> are raised by the
  interpreter on a value of the wrong type, \<open>HTTPError\<close> by \<^verbatim>\<open>raise_for_status\<close>;
  \<open>RequestException\<close> stands for the other failures of the \<^verbatim>\<open>requests\<close> library
  (connection refused, timeout, a body that is not JSON), \<open>OSError\<close> for a failure of the
  operating system (executable not found, no such process), \<open>OtherException\<close> for any other
  subclass of \<^verbatim>\<open>Exception\<close> (a line of the subprocess that does not decode).
\<close>

datatype exn =
    AttributeError
  | TypeError
  | KeyError
  | HTTPError nat
  | RequestException string
  | OSError string
  | OtherException string

text \<open>\<^verbatim>\<open>isinstance(e, requests.RequestException)\<close>\<close>

fun is_request_exception :: "exn \<Rightarrow> bool" where
  "is_request_exception (HTTPError _) = True"
| "is_request_exception (RequestException _) = True"
| "is_request_exception _ = False"

text \<open>Sequencing of computations that may raise: \<open>Inl e\<close> is the raised exception.\<close>

definition bindE :: "exn + 'a \<Rightarrow> ('a \<Rightarrow> exn + 'b) \<Rightarrow> exn + 'b" where
  "bindE m f = (case m of Inl e \<Rightarrow> Inl e | Inr x \<Rightarrow> f x)"

text \<open>\<^verbatim>\<open>obj.get(key)\<close>: only a dict has the method.\<close>

fun py_get :: "json \<Rightarrow> string \<Rightarrow> exn + json" where
  "py_get (JDict kvs) k = Inr (case map_of kvs k of None \<Rightarrow> JNull | Some v \<Rightarrow> v)"
| "py_get _ k = Inl AttributeError"

text \<open>\<^verbatim>\<open>obj[key]\<close> for a str \<open>key\<close>: the value of a dict at a key it has.\<close>

fun py_item :: "json \<Rightarrow> string \<Rightarrow> exn + json" where
  "py_item (JDict kvs) k = (case map_of kvs k of None \<Rightarrow> Inl KeyError | Some v \<Rightarrow> Inr v)"
| "py_item _ k = Inl TypeError"

text \<open>\<^verbatim>\<open>obj.get(key, default)\<close>\<close>

fun py_get_default :: "json \<Rightarrow> string \<Rightarrow> json \<Rightarrow> exn + json" where
  "py_get_default (JDict kvs) k d = Inr (case map_of kvs k of None \<Rightarrow> d | Some v \<Rightarrow> v)"
| "py_get_default _ k d = Inl AttributeError"

text \<open>\<^verbatim>\<open>sub in s\<close> on two strings: \<open>sub\<close> occurs in \<open>s\<close>.\<close>

fun starts_with :: "string \<Rightarrow> string \<Rightarrow> bool" where
  "starts_with [] s = True"
| "starts_with (p # ps) [] = False"
| "starts_with (p # ps) (c # cs) = (p = c \<and> starts_with ps cs)"

fun str_contains :: "string \<Rightarrow> string \<Rightarrow> bool" where
  "str_contains sub [] = (sub = [])"
| "str_contains sub (c # cs) = (starts_with sub (c # cs) \<or> str_contains sub cs)"

text \<open>
  \<^verbatim>\<open>key in obj\<close> for a str \<open>key\<close>: a key of a dict, an element of a list, a substring of
  a str; the other values are not containers.
\<close>

fun py_in :: "string \<Rightarrow> json \<Rightarrow> exn + bool" where
  "py_in k (JDict kvs) = Inr (k \<in> set (map fst kvs))"
| "py_in k (JList xs) = Inr (JStr k \<in> set xs)"
| "py_in k (JStr s) = Inr (str_contains k s)"
| "py_in k _ = Inl TypeError"

text \<open>\<^verbatim>\<open>isinstance(x, dict)\<close> and \<^verbatim>\<open>isinstance(x, list)\<close>\<close>

fun is_dict :: "json \<Rightarrow> bool" where
  "is_dict (JDict _) = True"
| "is_dict _ = False"

fun is_list :: "json \<Rightarrow> bool" where
  "is_list (JList _) = True"
| "is_list _ = False"

text \<open>
  \<^verbatim>\<open>list(x)\<close>: the elements of a list, the characters of a str, the keys of a dict; a
  number, a bool or \<^verbatim>\<open>None\<close> is not iterable.
\<close>

fun py_list :: "json \<Rightarrow> exn + json list" where
  "py_list (JList xs) = Inr xs"
| "py_list (JStr s) = Inr (map (\<lambda>c. JStr [c]) s)"
| "py_list (JDict kvs) = Inr (map (\<lambda>kv. JStr (fst kv)) kvs)"
| "py_list _ = Inl TypeError"

subsection \<open>Strings\<close>

text \<open>
  \<^verbatim>\<open>str.isspace\<close> on the characters up to U+00FF: tab, line feed, vertical tab, form
  feed, carriage return, the four separators U+001C to U+001F, space, next line (U+0085) and
  no-break space (U+00A0).
\<close>

definition is_space :: "char \<Rightarrow> bool" where
  "is_space c =
     (let n = (of_char c :: nat)
      in (9 \<le> n \<and> n \<le> 13) \<or> (28 \<le> n \<and> n \<le> 32) \<or> n = 133 \<or> n = 160)"

text \<open>\<^verbatim>\<open>s.strip()\<close>\<close>

definition strip :: "string \<Rightarrow> string" where
  "strip s = rev (dropWhile is_space (rev (dropWhile is_space s)))"

text \<open>\<^verbatim>\<open>s.rstrip("\n")\<close>: every trailing line feed goes.\<close>

definition rstrip_nl :: "string \<Rightarrow> string" where
  "rstrip_nl s = rev (dropWhile (\<lambda>c. c = CHR 0x0A) (rev s))"

text \<open>
  \<^verbatim>\<open>s.lower()\<close> on the characters up to U+00FF: A to Z, and the capital letters
  U+00C0 to U+00DE without the multiplication sign U+00D7, move up by 32.
\<close>

definition lower_char :: "char \<Rightarrow> char" where
  "lower_char c =
     (let n = (of_char c :: nat)
      in if (65 \<le> n \<and> n \<le> 90) \<or> (192 \<le> n \<and> n \<le> 222 \<and> n \<noteq> 215)
         then char_of (n + 32) else c)"

definition lower :: "string \<Rightarrow> string" where
  "lower s = map lower_char s"

text \<open>\<^verbatim>\<open>x.strip()\<close> on an object: only a str has the method.\<close>

fun py_strip :: "json \<Rightarrow> exn + string" where
  "py_strip (JStr s) = Inr (strip s)"
| "py_strip _ = Inl AttributeError"

subsection \<open>Configuration\<close>

type_synonym environ = "string \<rightharpoonup> string"

text \<open>\<^verbatim>\<open>os.environ.get(key, default)\<close>\<close>

definition environ_get :: "environ \<Rightarrow> string \<Rightarrow> string \<Rightarrow> string" where
  "environ_get env k d = (case env k of None \<Rightarrow> d | Some v \<Rightarrow> v)"

definition OLLAMA_BASE :: "environ \<Rightarrow> string" where
  "OLLAMA_BASE env = environ_get env ''OLLAMA_BASE'' ''http://localhost:11434''"

definition MODEL :: "environ \<Rightarrow> string" where
  "MODEL env = environ_get env ''OLLAMA_MODEL'' ''gpt-oss:20b''"

section \<open>The outside world\<close>

text \<open>
  What the server cannot decide is given as data. \<open>pylib\<close> holds the library functions
  whose results the code only passes on: \<^verbatim>\<open>json.loads\<close> (\<open>None\<close> when it raises),
  \<^verbatim>\<open>json.dumps(obj, ensure_ascii=False)\<close> and \<^verbatim>\<open>str(e)\<close> of an exception.
\<close>

record pylib =
  loads :: "string \<Rightarrow> json option"
  dumps :: "json \<Rightarrow> string"
  str_exc :: "exn \<Rightarrow> string"

text \<open>
  A line iterator (\<^verbatim>\<open>r.iter_lines\<close>, \<^verbatim>\<open>proc.stdout\<close>) gives its lines and then
  either ends or raises.
\<close>

datatype read_end = EOF | ReadRaises exn

text \<open>
  The answer to \<^verbatim>\<open>requests.post\<close>: an exception, or a response with its status code,
  the lines of its body as \<^verbatim>\<open>iter_lines\<close> gives them, and the result of \<^verbatim>\<open>r.json()\<close>.
\<close>

record http_response =
  status_code :: nat
  body_lines :: "string list"
  body_end :: read_end
  json_body :: "exn + json"

datatype post_result = PostRaises exn | Responded http_response

text \<open>\<^verbatim>\<open>r.raise_for_status()\<close>: an \<open>HTTPError\<close> for a 4xx or 5xx status.\<close>

definition raise_for_status :: "http_response \<Rightarrow> exn + unit" where
  "raise_for_status r =
     (if 400 \<le> status_code r \<and> status_code r < 600 then Inl (HTTPError (status_code r))
      else Inr ())"

text \<open>
  The answer to \<^verbatim>\<open>subprocess.Popen\<close>: an exception, or a process with the lines of its
  standard output (each with its line feed) and what \<^verbatim>\<open>proc.terminate()\<close> will do.
\<close>

record process =
  stdout_lines :: "string list"
  stdout_end :: read_end
  terminate_raises :: "exn option"

datatype popen_result = PopenRaises exn | Launched process

record world =
  on_post :: post_result
  on_popen :: popen_result

section \<open>Generators\<close>

text \<open>
  The two stream functions are generators. Running one gives the trace of what it did, in
  order, and how it ended. \<open>Yield obj\<close> stands for \<^verbatim>\<open>yield _ndjson(obj)\<close>.
\<close>

datatype event =
    Post string json
  | CloseResponse
  | Popen "string list"
  | Terminate
  | Yield json

text \<open>
  How a block ends: it runs to its end, an exception leaves it, or the consumer has closed
  the generator at a \<^verbatim>\<open>yield\<close> (\<^verbatim>\<open>GeneratorExit\<close>, which \<^verbatim>\<open>except Exception\<close> does not
  catch).
\<close>

datatype exit = Finished | Raise exn | GeneratorExit

text \<open>
  The consumer of the stream (the WSGI server writing to the caller) either drains the
  generator or closes it after taking a number of records (caller disconnect).
\<close>

datatype consumer = Drains | Takes nat

fun resume :: "consumer \<Rightarrow> consumer option" where
  "resume Drains = Some Drains"
| "resume (Takes n) = (if n \<le> 1 then None else Some (Takes (n - 1)))"

record gstate =
  trace :: "event list"
  remaining :: consumer

definition effect :: "event \<Rightarrow> gstate \<Rightarrow> gstate" where
  "effect e s = s\<lparr>trace := trace s @ [e]\<rparr>"

text \<open>
  \<^verbatim>\<open>yield _ndjson(obj)\<close>: the record goes out; the generator goes on when the consumer
  asks for the next one, and gets \<^verbatim>\<open>GeneratorExit\<close> when the consumer closes it.
\<close>

definition yield :: "json \<Rightarrow> gstate \<Rightarrow> gstate \<times> exit" where
  "yield obj s =
     (case resume (remaining s) of
        None \<Rightarrow> (effect (Yield obj) s, GeneratorExit)
      | Some c \<Rightarrow> (effect (Yield obj) s\<lparr>remaining := c\<rparr>, Finished))"

text \<open>\<^verbatim>\<open>_ndjson\<close>\<close>

definition ndjson :: "pylib \<Rightarrow> json \<Rightarrow> string" where
  "ndjson lib obj = dumps lib obj @ [CHR 0x0A]"

text \<open>The records of a trace, and the text that reaches the caller.\<close>

fun records :: "event list \<Rightarrow> json list" where
  "records [] = []"
| "records (Yield obj # evs) = obj # records evs"
| "records (_ # evs) = records evs"

definition wire :: "pylib \<Rightarrow> event list \<Rightarrow> string list" where
  "wire lib evs = map (ndjson lib) (records evs)"

section \<open>The streaming endpoint\<close>

subsection \<open>\<^verbatim>\<open>ollama_stream\<close>\<close>

text \<open>
  The body of the loop over the lines of the response, for one parsed fragment \<open>j\<close>: the
  record to yield, if any.
  \<^verbatim>\<open>
  if "response" in j and j.get("response"):
      yield _ndjson({"response": j["response"]})
  elif "message" in j and isinstance(j.get("message"), dict):
      content = (j["message"].get("content") or "")
      if content:
          yield _ndjson({"response": content})
  \<close>
\<close>

definition fragment_record :: "json \<Rightarrow> exn + json option" where
  "fragment_record j =
     bindE (py_in ''response'' j) (\<lambda>in_response.
     bindE (if in_response then bindE (py_get j ''response'') (\<lambda>v. Inr (truthy v))
            else Inr False) (\<lambda>has_response.
     if has_response
     then bindE (py_item j ''response'') (\<lambda>v. Inr (Some (JDict [(''response'', v)])))
     else
       bindE (py_in ''message'' j) (\<lambda>in_message.
       bindE (if in_message then bindE (py_get j ''message'') (\<lambda>m. Inr (is_dict m))
              else Inr False) (\<lambda>has_message.
       if has_message
       then bindE (py_item j ''message'') (\<lambda>m.
            bindE (py_get m ''content'') (\<lambda>v.
              let content = py_or v (JStr [])
              in Inr (if truthy content then Some (JDict [(''response'', content)])
                      else None)))
       else Inr None))))"

text \<open>\<^verbatim>\<open>if j.get("done"): break\<close>\<close>

definition fragment_done :: "json \<Rightarrow> exn + bool" where
  "fragment_done j = bindE (py_get j ''done'') (\<lambda>v. Inr (truthy v))"

text \<open>
  The loop \<^verbatim>\<open>for raw in r.iter_lines(decode_unicode=True)\<close>: an empty line and a line
  that \<^verbatim>\<open>json.loads\<close> rejects are passed over (\<^verbatim>\<open>continue\<close>); \<open>Finished\<close> is the
  loop left at the end of the body or by \<^verbatim>\<open>break\<close>.
\<close>

fun ollama_lines ::
  "(string \<Rightarrow> json option) \<Rightarrow> string list \<Rightarrow> read_end \<Rightarrow> gstate \<Rightarrow> gstate \<times> exit" where
  "ollama_lines ld [] fin s = (s, case fin of EOF \<Rightarrow> Finished | ReadRaises e \<Rightarrow> Raise e)"
| "ollama_lines ld (raw # rest) fin s =
     (if raw = [] then ollama_lines ld rest fin s
      else case ld raw of
        None \<Rightarrow> ollama_lines ld rest fin s
      | Some j \<Rightarrow>
         (case fragment_record j of
            Inl e \<Rightarrow> (s, Raise e)
          | Inr out \<Rightarrow>
             (case (case out of None \<Rightarrow> (s, Finished) | Some obj \<Rightarrow> yield obj s) of
                (s', Finished) \<Rightarrow>
                  (case fragment_done j of
                     Inl e \<Rightarrow> (s', Raise e)
                   | Inr d \<Rightarrow> if d then (s', Finished) else ollama_lines ld rest fin s')
              | (s', Raise e) \<Rightarrow> (s', Raise e)
              | (s', GeneratorExit) \<Rightarrow> (s', GeneratorExit))))"

text \<open>
  The generator, in three parts. \<open>message\<close> and \<open>messages\<close> are the variables of
  \<^verbatim>\<open>chat_stream\<close> it closes over. First the address and the payload:
  \<^verbatim>\<open>/api/chat\<close> with the turns of \<open>messages\<close> and the new user turn when there are
  turns, \<^verbatim>\<open>/api/generate\<close> with the prompt otherwise.
\<close>

definition ollama_request :: "environ \<Rightarrow> string \<Rightarrow> json \<Rightarrow> exn + string \<times> json" where
  "ollama_request env message messages =
     (if truthy messages
      then bindE (py_list messages) (\<lambda>listed.
             let chat_messages =
                   (if message \<noteq> []
                    then listed @ [JDict [(''role'', JStr ''user''),
                                          (''content'', JStr message)]]
                    else listed)
             in Inr (OLLAMA_BASE env @ ''/api/chat'',
                     JDict [(''model'', JStr (MODEL env)),
                            (''messages'', JList chat_messages),
                            (''stream'', JBool True)]))
      else Inr (OLLAMA_BASE env @ ''/api/generate'',
                JDict [(''model'', JStr (MODEL env)),
                       (''prompt'', JStr message),
                       (''stream'', JBool True)]))"

text \<open>
  The \<^verbatim>\<open>try\<close> block: the request is built and sent, the status checked and the lines
  read; the \<^verbatim>\<open>with\<close> block closes the response however it is left.
\<close>

definition ollama_try ::
  "pylib \<Rightarrow> environ \<Rightarrow> world \<Rightarrow> string \<Rightarrow> json \<Rightarrow> gstate \<Rightarrow> gstate \<times> exit" where
  "ollama_try lib env w message messages s =
     (case ollama_request env message messages of
        Inl e \<Rightarrow> (s, Raise e)
      | Inr (url, payload) \<Rightarrow>
         (case on_post w of
            PostRaises e \<Rightarrow> (effect (Post url payload) s, Raise e)
          | Responded r \<Rightarrow>
             (case
                (case raise_for_status r of
                   Inl e \<Rightarrow> (effect (Post url payload) s, Raise e)
                 | Inr _ \<Rightarrow>
                    ollama_lines (loads lib) (body_lines r) (body_end r)
                      (effect (Post url payload) s))
              of (s', x) \<Rightarrow> (effect CloseResponse s', x))))"

text \<open>
  The whole body: \<^verbatim>\<open>except Exception as e\<close> turns an exception that leaves the
  \<^verbatim>\<open>try\<close> block into one more record.
\<close>

definition ollama_stream ::
  "pylib \<Rightarrow> environ \<Rightarrow> world \<Rightarrow> string \<Rightarrow> json \<Rightarrow> gstate \<Rightarrow> gstate \<times> exit" where
  "ollama_stream lib env w message messages s =
     (case ollama_try lib env w message messages s of
        (s', Raise e) \<Rightarrow>
          yield (JDict [(''error'', JStr (''ollama stream failed: '' @ str_exc lib e))]) s'
      | (s', Finished) \<Rightarrow> (s', Finished)
      | (s', GeneratorExit) \<Rightarrow> (s', GeneratorExit))"

subsection \<open>\<^verbatim>\<open>gemini_cli_stream\<close>\<close>

text \<open>
  The loop \<^verbatim>\<open>for line in proc.stdout\<close>: the line without its trailing line feeds is
  yielded unless it is empty.
\<close>

fun gemini_lines :: "string list \<Rightarrow> read_end \<Rightarrow> gstate \<Rightarrow> gstate \<times> exit" where
  "gemini_lines [] fin s = (s, case fin of EOF \<Rightarrow> Finished | ReadRaises e \<Rightarrow> Raise e)"
| "gemini_lines (l # ls) fin s =
     (let line = rstrip_nl l
      in if line = [] then gemini_lines ls fin s
         else (case yield (JDict [(''response'', JStr line)]) s of
                 (s', Finished) \<Rightarrow> gemini_lines ls fin s'
               | (s', Raise e) \<Rightarrow> (s', Raise e)
               | (s', GeneratorExit) \<Rightarrow> (s', GeneratorExit)))"

text \<open>
  \<^verbatim>\<open>try: proc.terminate() except Exception: pass\<close>: the signal is sent, and an exception
  it raises ends there.
\<close>

definition terminate_quietly :: "process \<Rightarrow> gstate \<Rightarrow> gstate" where
  "terminate_quietly p s =
     (case terminate_raises p of
        None \<Rightarrow> effect Terminate s
      | Some e \<Rightarrow> effect Terminate s)"

text \<open>
  The generator. A failure of \<^verbatim>\<open>Popen\<close> gives one error record and \<^verbatim>\<open>return\<close>. After
  a launch, the \<^verbatim>\<open>finally\<close> block runs however the loop is left, and the way the loop
  was left stays (there is no \<^verbatim>\<open>except\<close> on this \<^verbatim>\<open>try\<close>).
  \<^verbatim>\<open>assert proc.stdout is not None\<close> holds since \<^verbatim>\<open>stdout=subprocess.PIPE\<close>.
\<close>

definition gemini_cli_stream ::
  "pylib \<Rightarrow> environ \<Rightarrow> world \<Rightarrow> string \<Rightarrow> gstate \<Rightarrow> gstate \<times> exit" where
  "gemini_cli_stream lib env w message s =
     (let cmd = environ_get env ''GEMINI_CMD'' ''gemini'';
          model = environ_get env ''GEMINI_MODEL'' ''gemini-1.5-flash'';
          args = [cmd, ''stream'', ''-m'', model, ''-p'', message]
      in case on_popen w of
           PopenRaises e \<Rightarrow>
             yield (JDict [(''error'', JStr (''failed to start gemini cli: '' @ str_exc lib e))])
               (effect (Popen args) s)
         | Launched p \<Rightarrow>
            (case gemini_lines (stdout_lines p) (stdout_end p) (effect (Popen args) s) of
               (s', x) \<Rightarrow> (terminate_quietly p s', x)))"

subsection \<open>\<^verbatim>\<open>chat_stream\<close>\<close>

text \<open>
  What a view function hands back to Flask. \<open>Stream g message messages\<close> is
  \<^verbatim>\<open>Response(generator(), mimetype="application/x-ndjson; charset=utf-8")\<close>: the generator
  chosen, not yet started, with the variables it closes over. \<open>BadRequest\<close> is the answer
  when \<^verbatim>\<open>request.get_json(force=True)\<close> cannot parse the body, and
  \<open>InternalServerError e\<close> the answer when the exception \<open>e\<close> leaves the view function.
\<close>

datatype generator = Ollama_stream | Gemini_cli_stream

datatype reply =
    Html
  | Json nat json
  | Stream generator string json
  | BadRequest
  | InternalServerError exn

text \<open>
  The view function, on the body as \<^verbatim>\<open>request.get_json(force=True)\<close> parsed it
  (\<open>None\<close> when it could not). The statements run in the order of the source, each of
  them able to raise.
\<close>

definition chat_stream :: "json option \<Rightarrow> reply" where
  "chat_stream body =
     (case body of
        None \<Rightarrow> BadRequest
      | Some parsed \<Rightarrow>
         (let data = py_or parsed (JDict []) in
          case
            bindE (py_get data ''message'') (\<lambda>m.
            bindE (py_strip (py_or m (JStr []))) (\<lambda>message.
            bindE (py_get data ''messages'') (\<lambda>ms.
            let messages = py_or ms (JList []) in
            bindE (py_get data ''provider'') (\<lambda>p.
            bindE (py_strip (py_or p (JStr ''ollama''))) (\<lambda>stripped.
            let provider = lower stripped in
            if message = [] \<and> \<not> truthy messages
            then Inr (Json 400 (JDict [(''error'', JStr ''message is required'')]))
            else Inr (Stream (if provider = ''ollama'' then Ollama_stream
                              else Gemini_cli_stream)
                        message messages))))))
          of Inl e \<Rightarrow> InternalServerError e
           | Inr r \<Rightarrow> r))"

text \<open>
  The server then iterates the response. A consumer that takes nothing closes a generator
  that never started, so none of its body runs.
\<close>

definition run_generator ::
  "pylib \<Rightarrow> environ \<Rightarrow> world \<Rightarrow> consumer \<Rightarrow> generator \<Rightarrow> string \<Rightarrow> json \<Rightarrow> gstate \<times> exit" where
  "run_generator lib env w c g message messages =
     (let s = \<lparr>trace = [], remaining = c\<rparr>
      in if c = Takes 0 then (s, GeneratorExit)
         else (case g of
                 Ollama_stream \<Rightarrow> ollama_stream lib env w message messages s
               | Gemini_cli_stream \<Rightarrow> gemini_cli_stream lib env w message s))"

text \<open>One request to \<^verbatim>\<open>POST /chat_stream\<close>: the reply and everything done for it.\<close>

definition serve_chat_stream ::
  "pylib \<Rightarrow> environ \<Rightarrow> world \<Rightarrow> consumer \<Rightarrow> json option \<Rightarrow> reply \<times> event list \<times> exit" where
  "serve_chat_stream lib env w c body =
     (case chat_stream body of
        Stream g message messages \<Rightarrow>
          (case run_generator lib env w c g message messages of
             (s, x) \<Rightarrow> (Stream g message messages, trace s, x))
      | r \<Rightarrow> (r, [], Finished))"

section \<open>The plain endpoint\<close>

datatype http_method = GET | POST

text \<open>
  \<^verbatim>\<open>chat\<close>: the reply and the requests sent to Ollama. Only a
  \<^verbatim>\<open>requests.RequestException\<close> is caught (status 502).
\<close>

definition chat ::
  "pylib \<Rightarrow> environ \<Rightarrow> world \<Rightarrow> http_method \<Rightarrow> json option \<Rightarrow> reply \<times> event list" where
  "chat lib env w method body =
     (if method = GET then (Html, [])
      else case body of
        None \<Rightarrow> (BadRequest, [])
      | Some parsed \<Rightarrow>
         (let data = py_or parsed (JDict []) in
          case
            bindE (py_get data ''message'') (\<lambda>m.
            bindE (py_strip (py_or m (JStr []))) (\<lambda>message0.
            bindE (py_get data ''messages'') (\<lambda>ms.
            let messages0 = py_or ms (JList []) in
            bindE (py_get data ''provider'') (\<lambda>p.
            bindE (py_strip (py_or p (JStr ''ollama''))) (\<lambda>stripped.
            let provider = lower stripped in
            Inr (message0, messages0))))))
          of
            Inl e \<Rightarrow> (InternalServerError e, [])
          | Inr (message0, messages0) \<Rightarrow>
             if message0 = [] \<and> \<not> truthy messages0
             then (Json 400 (JDict [(''error'', JStr ''message is required'')]), [])
             else
               (let message = (if message0 \<noteq> [] \<and> length message0 > 8000
                               then take 8000 message0 else message0);
                    messages = (case messages0 of
                                  JList xs \<Rightarrow>
                                    if length xs > 0 then JList (drop (length xs - 20) xs)
                                    else messages0
                                | _ \<Rightarrow> messages0)
                in case
                     (if truthy messages
                      then
                        (case py_list messages of
                           Inl e \<Rightarrow> ([], Inl e)
                         | Inr listed \<Rightarrow>
                            (let chat_messages =
                                   (if message \<noteq> []
                                    then listed @ [JDict [(''role'', JStr ''user''),
                                                          (''content'', JStr message)]]
                                    else listed);
                                 payload = JDict [(''model'', JStr (MODEL env)),
                                                  (''messages'', JList chat_messages),
                                                  (''stream'', JBool False)]
                             in ([Post (OLLAMA_BASE env @ ''/api/chat'') payload],
                                 case on_post w of
                                   PostRaises e \<Rightarrow> Inl e
                                 | Responded r \<Rightarrow>
                                     bindE (raise_for_status r) (\<lambda>_.
                                     bindE (json_body r) (\<lambda>j.
                                     bindE (py_get j ''message'') (\<lambda>jm.
                                     bindE (py_get_default (py_or jm (JDict []))
                                              ''content'' (JStr [])) (\<lambda>reply.
                                     Inr (Json 200 (JDict [(''reply'', reply)])))))))))
                      else
                        (let payload = JDict [(''model'', JStr (MODEL env)),
                                              (''prompt'', JStr message),
                                              (''stream'', JBool False)]
                         in ([Post (OLLAMA_BASE env @ ''/api/generate'') payload],
                             case on_post w of
                               PostRaises e \<Rightarrow> Inl e
                             | Responded r \<Rightarrow>
                                 bindE (raise_for_status r) (\<lambda>_.
                                 bindE (json_body r) (\<lambda>j.
                                 bindE (py_get_default j ''response'' (JStr [])) (\<lambda>reply.
                                 Inr (Json 200 (JDict [(''reply'', reply)]))))))))
                   of
                     (evs, Inr r) \<Rightarrow> (r, evs)
                   | (evs, Inl e) \<Rightarrow>
                       if is_request_exception e
                       then (Json 502 (JDict [(''error'', JStr (str_exc lib e))]), evs)
                       else (InternalServerError e, evs))))"

section \<open>What the specification speaks of\<close>

text \<open>
  An output record is a dict with the one field \<^verbatim>\<open>response\<close> or the one field
  \<^verbatim>\<open>error\<close>. The predicates tell the two kinds apart by the field they have.
\<close>

fun is_error_record :: "json \<Rightarrow> bool" where
  "is_error_record (JDict kvs) = (''error'' \<in> set (map fst kvs))"
| "is_error_record _ = False"

fun is_response_record :: "json \<Rightarrow> bool" where
  "is_response_record (JDict kvs) = (''response'' \<in> set (map fst kvs))"
| "is_response_record _ = False"

text \<open>An event that is not the yield of an error record.\<close>

fun no_error_yield :: "event \<Rightarrow> bool" where
  "no_error_yield (Yield obj) = (\<not> is_error_record obj)"
| "no_error_yield _ = True"

text \<open>
  The extraction rule in the words of the specification, for a fragment that is an object
  with the fields \<open>kvs\<close>: a non-empty \<^verbatim>\<open>response\<close> field is emitted; else, when
  \<^verbatim>\<open>message\<close> is an object whose \<^verbatim>\<open>content\<close> is non-empty, that content is emitted;
  else nothing is. A field that is absent reads as \<open>JNull\<close>, and non-empty is \<open>truthy\<close>.
\<close>

definition field :: "(string \<times> json) list \<Rightarrow> string \<Rightarrow> json" where
  "field kvs k = (case map_of kvs k of None \<Rightarrow> JNull | Some v \<Rightarrow> v)"

definition extraction_rule :: "(string \<times> json) list \<Rightarrow> json option" where
  "extraction_rule kvs =
     (if truthy (field kvs ''response'') then Some (JDict [(''response'', field kvs ''response'')])
      else case field kvs ''message'' of
             JDict mkvs \<Rightarrow>
               if truthy (field mkvs ''content'')
               then Some (JDict [(''response'', field mkvs ''content'')])
               else None
           | _ \<Rightarrow> None)"

text \<open>
  What a drained stream holds for a sequence of fragments, in the words of the
  specification: each fragment gives what the extraction rule says, and the first fragment
  whose \<^verbatim>\<open>done\<close> flag is true is the last one looked at.
\<close>

fun emitted_records :: "(string \<times> json) list list \<Rightarrow> json list" where
  "emitted_records [] = []"
| "emitted_records (kvs # rest) =
     (case extraction_rule kvs of None \<Rightarrow> [] | Some obj \<Rightarrow> [obj]) @
     (if truthy (field kvs ''done'') then [] else emitted_records rest)"

text \<open>
  An empty \<^verbatim>\<open>message\<close>: the field is absent or falsy, or a string of white space only.
\<close>

fun is_blank :: "json \<Rightarrow> bool" where
  "is_blank (JStr m) = (strip m = [])"
| "is_blank v = (\<not> truthy v)"

subsection \<open>Sample inputs\<close>

text \<open>
  A library whose \<^verbatim>\<open>json.loads\<close> knows three lines of an Ollama stream and rejects
  every other line, and the parts of a world: responses of Ollama and processes.
\<close>

definition sample_lib :: pylib where
  \<open>sample_lib =
     \<lparr>loads = (\<lambda>raw.
         if raw = ''{"response":"a","done":false}''
         then Some (JDict [(''response'', JStr ''a''), (''done'', JBool False)])
         else if raw = ''{"response":"b","done":true}''
         then Some (JDict [(''response'', JStr ''b''), (''done'', JBool True)])
         else if raw = ''{"message":{"role":"assistant","content":"x"},"done":false}''
         then Some (JDict [(''message'', JDict [(''role'', JStr ''assistant''),
                                                (''content'', JStr ''x'')]),
                           (''done'', JBool False)])
         else None),
       dumps = (\<lambda>obj. ''{}''),
       str_exc = (\<lambda>e. ''failure'')\<rparr>\<close>

definition sample_response :: "string list \<Rightarrow> read_end \<Rightarrow> http_response" where
  "sample_response ls fin =
     \<lparr>status_code = 200, body_lines = ls, body_end = fin, json_body = Inr (JDict [])\<rparr>"

definition sample_process :: "string list \<Rightarrow> read_end \<Rightarrow> exn option \<Rightarrow> process" where
  "sample_process ls fin t = \<lparr>stdout_lines = ls, stdout_end = fin, terminate_raises = t\<rparr>"

definition sample_world :: "post_result \<Rightarrow> popen_result \<Rightarrow> world" where
  "sample_world a b = \<lparr>on_post = a, on_popen = b\<rparr>"

section \<open>Facts about traces and generators\<close>

lemma records_append: "records (xs @ ys) = records xs @ records ys"
  by (induction xs rule: records.induct) simp_all

lemma records_map_Yield: "records (map (\<lambda>x. Yield (f x)) xs) = map f xs"
  by (induction xs) simp_all

lemma trace_effect: "trace (effect e s) = trace s @ [e]"
  by (simp add: effect_def)

lemma remaining_effect: "remaining (effect e s) = remaining s"
  by (simp add: effect_def)

lemma yield_Drains: "remaining s = Drains \<Longrightarrow> yield obj s = (effect (Yield obj) s, Finished)"
  by (simp add: yield_def effect_def)

lemma yield_cases:
  assumes "yield obj s = (s', x)"
  shows "trace s' = trace s @ [Yield obj] \<and> (x = Finished \<or> x = GeneratorExit)"
  using assms by (auto simp: yield_def effect_def split: option.splits)

lemma yield_Drains_remaining:
  assumes "remaining s = Drains" and "yield obj s = (s', x)"
  shows "remaining s' = Drains"
  using assms by (auto simp: yield_def effect_def)

lemma trace_terminate_quietly: "trace (terminate_quietly p s) = trace s @ [Terminate]"
  by (simp add: terminate_quietly_def trace_effect split: option.splits)

lemma terminate_quietly_independent:
  "terminate_quietly (p\<lparr>terminate_raises := t\<rparr>) s = terminate_quietly p s"
  by (simp add: terminate_quietly_def split: option.splits)

subsection \<open>The loop of \<^verbatim>\<open>gemini_cli_stream\<close>\<close>

lemma gemini_lines_Drains:
  "remaining s = Drains \<Longrightarrow>
   gemini_lines ls fin s =
     (s\<lparr>trace := trace s @
          map (\<lambda>l. Yield (JDict [(''response'', JStr l)]))
            (filter (\<lambda>l. l \<noteq> []) (map rstrip_nl ls))\<rparr>,
      case fin of EOF \<Rightarrow> Finished | ReadRaises e \<Rightarrow> Raise e)"
proof (induction ls arbitrary: s)
  case Nil
  then show ?case by simp
next
  case (Cons l ls)
  show ?case
  proof (cases "rstrip_nl l = []")
    case True
    with Cons show ?thesis by simp
  next
    case False
    have r: "remaining (effect (Yield (JDict [(''response'', JStr (rstrip_nl l))])) s) = Drains"
      using Cons.prems by (simp add: remaining_effect)
    show ?thesis
      using False Cons.prems
      by (simp add: yield_Drains Cons.IH [OF r] trace_effect Let_def) (simp add: effect_def)
  qed
qed

text \<open>Whatever the consumer does, the loop adds nothing but yields of response records.\<close>

lemma gemini_lines_trace:
  "\<exists>ls'. trace (fst (gemini_lines ls fin s)) =
           trace s @ map (\<lambda>l. Yield (JDict [(''response'', JStr l)])) ls'"
proof (induction ls arbitrary: s)
  case Nil
  have "trace s = trace s @ map (\<lambda>l. Yield (JDict [(''response'', JStr l)])) []" by simp
  then show ?case by (metis gemini_lines.simps(1) fst_conv)
next
  case (Cons l ls)
  show ?case
  proof (cases "rstrip_nl l = []")
    case True
    with Cons show ?thesis by simp
  next
    case False
    obtain s' x where y: "yield (JDict [(''response'', JStr (rstrip_nl l))]) s = (s', x)"
      by (cases "yield (JDict [(''response'', JStr (rstrip_nl l))]) s") blast
    from yield_cases [OF y]
    have tr: "trace s' = trace s @ [Yield (JDict [(''response'', JStr (rstrip_nl l))])]"
      and x: "x = Finished \<or> x = GeneratorExit" by simp_all
    from x show ?thesis
    proof
      assume fin: "x = Finished"
      from Cons.IH [of s'] obtain ls' where
        "trace (fst (gemini_lines ls fin s')) =
           trace s' @ map (\<lambda>l. Yield (JDict [(''response'', JStr l)])) ls'" by blast
      then have "trace (fst (gemini_lines (l # ls) fin s)) =
           trace s @ map (\<lambda>l. Yield (JDict [(''response'', JStr l)])) (rstrip_nl l # ls')"
        using False y fin tr by (simp add: Let_def)
      then show ?thesis by blast
    next
      assume "x = GeneratorExit"
      then have "trace (fst (gemini_lines (l # ls) fin s)) =
           trace s @ map (\<lambda>l. Yield (JDict [(''response'', JStr l)])) [rstrip_nl l]"
        using False y tr by (simp add: Let_def)
      then show ?thesis by blast
    qed
  qed
qed

lemma gemini_lines_exit:
  "snd (gemini_lines ls fin s) = Raise e \<Longrightarrow> fin = ReadRaises e"
proof (induction ls arbitrary: s)
  case Nil
  then show ?case by (simp split: read_end.splits)
next
  case (Cons l ls)
  show ?case
  proof (cases "rstrip_nl l = []")
    case True
    with Cons show ?thesis by simp
  next
    case False
    obtain s' x where y: "yield (JDict [(''response'', JStr (rstrip_nl l))]) s = (s', x)"
      by (cases "yield (JDict [(''response'', JStr (rstrip_nl l))]) s") blast
    from yield_cases [OF y] have "x = Finished \<or> x = GeneratorExit" by simp
    then show ?thesis
      using Cons False y by (auto simp: Let_def)
  qed
qed

lemma gemini_launched:
  assumes "on_popen w = Launched p" and "c \<noteq> Takes 0"
  shows "run_generator lib env w c Gemini_cli_stream message messages =
           (terminate_quietly p
              (fst (gemini_lines (stdout_lines p) (stdout_end p)
                 (effect (Popen [environ_get env ''GEMINI_CMD'' ''gemini'', ''stream'', ''-m'',
                                 environ_get env ''GEMINI_MODEL'' ''gemini-1.5-flash'', ''-p'',
                                 message])
                    \<lparr>trace = [], remaining = c\<rparr>))),
            snd (gemini_lines (stdout_lines p) (stdout_end p)
                 (effect (Popen [environ_get env ''GEMINI_CMD'' ''gemini'', ''stream'', ''-m'',
                                 environ_get env ''GEMINI_MODEL'' ''gemini-1.5-flash'', ''-p'',
                                 message])
                    \<lparr>trace = [], remaining = c\<rparr>)))"
  using assms by (simp add: run_generator_def gemini_cli_stream_def Let_def split: prod.splits)

section \<open>The process adapter\<close>

text \<open>
  Claim C7. For every sequence of lines the subprocess writes before it closes its output,
  the drained stream of \<^verbatim>\<open>gemini_cli_stream\<close> has one record \<^verbatim>\<open>{"response": line}\<close> for
  each line that is not empty once its trailing line feed is stripped, in order, and
  nothing for a line that is; then the stream ends. For the lines \<^verbatim>\<open>1\<close>, an empty line
  and \<^verbatim>\<open>2\<close> the records are exactly \<^verbatim>\<open>{"response":"1"}\<close> and \<^verbatim>\<open>{"response":"2"}\<close>.
\<close>

theorem gemini_emits_nonempty_lines:
  assumes "on_popen w = Launched p" and "stdout_end p = EOF"
  shows "records (trace (fst (run_generator lib env w Drains Gemini_cli_stream message messages)))
           = map (\<lambda>l. JDict [(''response'', JStr l)])
               (filter (\<lambda>l. l \<noteq> []) (map rstrip_nl (stdout_lines p)))
         \<and> snd (run_generator lib env w Drains Gemini_cli_stream message messages) = Finished
         \<and> (stdout_lines p = [''1\<newline>'', ''\<newline>'', ''2\<newline>''] \<longrightarrow>
              records (trace (fst (run_generator lib env w Drains Gemini_cli_stream
                                     message messages)))
                = [JDict [(''response'', JStr ''1'')], JDict [(''response'', JStr ''2'')]])"
proof -
  let ?run = "run_generator lib env w Drains Gemini_cli_stream message messages"
  let ?s = "effect (Popen [environ_get env ''GEMINI_CMD'' ''gemini'', ''stream'', ''-m'',
               environ_get env ''GEMINI_MODEL'' ''gemini-1.5-flash'', ''-p'', message])
              \<lparr>trace = [], remaining = Drains\<rparr>"
  have r: "remaining ?s = Drains" by (simp add: remaining_effect)
  have run: "?run = (terminate_quietly p (fst (gemini_lines (stdout_lines p) EOF ?s)),
                     snd (gemini_lines (stdout_lines p) EOF ?s))"
    using gemini_launched [OF assms(1), of Drains lib env message messages] assms(2) by simp
  have 1: "records (trace (fst ?run))
           = map (\<lambda>l. JDict [(''response'', JStr l)])
               (filter (\<lambda>l. l \<noteq> []) (map rstrip_nl (stdout_lines p)))"
    unfolding run
    by (simp add: gemini_lines_Drains [OF r] trace_terminate_quietly records_append
          trace_effect records_map_Yield)
  have 2: "snd ?run = Finished"
    unfolding run by (simp add: gemini_lines_Drains [OF r])
  have 3: "stdout_lines p = [''1\<newline>'', ''\<newline>'', ''2\<newline>''] \<Longrightarrow>
           map (\<lambda>l. JDict [(''response'', JStr l)])
               (filter (\<lambda>l. l \<noteq> []) (map rstrip_nl (stdout_lines p)))
          = [JDict [(''response'', JStr ''1'')], JDict [(''response'', JStr ''2'')]]"
    by (simp add: rstrip_nl_def)
  show ?thesis using 1 2 3 by simp
qed

theorem gemini_emits_nonempty_lines_witness:
  "on_popen (sample_world (PostRaises TypeError)
       (Launched (sample_process [''1\<newline>'', ''\<newline>'', ''2\<newline>''] EOF None)))
     = Launched (sample_process [''1\<newline>'', ''\<newline>'', ''2\<newline>''] EOF None)
   \<and> stdout_end (sample_process [''1\<newline>'', ''\<newline>'', ''2\<newline>''] EOF None) = EOF
   \<and> records (trace (fst (run_generator sample_lib Map.empty
         (sample_world (PostRaises TypeError)
            (Launched (sample_process [''1\<newline>'', ''\<newline>'', ''2\<newline>''] EOF None)))
         Drains Gemini_cli_stream ''count'' (JList []))))
       = [JDict [(''response'', JStr ''1'')], JDict [(''response'', JStr ''2'')]]
   \<and> snd (run_generator sample_lib Map.empty
         (sample_world (PostRaises TypeError)
            (Launched (sample_process [''1\<newline>'', ''\<newline>'', ''2\<newline>''] EOF None)))
         Drains Gemini_cli_stream ''count'' (JList [])) = Finished"
proof -
  let ?p = "sample_process [''1\<newline>'', ''\<newline>'', ''2\<newline>''] EOF None"
  let ?w = "sample_world (PostRaises TypeError) (Launched ?p)"
  have h1: "on_popen ?w = Launched ?p" by (simp add: sample_world_def)
  have h2: "stdout_end ?p = EOF" by (simp add: sample_process_def)
  have h3: "stdout_lines ?p = [''1\<newline>'', ''\<newline>'', ''2\<newline>'']"
    by (simp add: sample_process_def)
  note run = gemini_emits_nonempty_lines [OF h1 h2, of sample_lib Map.empty "''count''" "JList []"]
  from run h3 have a: "records (trace (fst (run_generator sample_lib Map.empty ?w Drains
      Gemini_cli_stream ''count'' (JList []))))
    = [JDict [(''response'', JStr ''1'')], JDict [(''response'', JStr ''2'')]]" by blast
  from run have b: "snd (run_generator sample_lib Map.empty ?w Drains
      Gemini_cli_stream ''count'' (JList [])) = Finished" by blast
  from h1 h2 a b show ?thesis by blast
qed

text \<open>
  Claim C6. Once \<^verbatim>\<open>gemini_cli_stream\<close> has launched the subprocess, then however the
  stream ends (the process closes its output, reading it fails, or the consumer closes the
  generator after any number of records), \<^verbatim>\<open>proc.terminate()\<close> is called exactly once and
  is the last thing the generator does; and whether that call raises changes nothing: the
  run with a failing \<^verbatim>\<open>terminate\<close> is the run with a succeeding one, and when the output
  ended normally no exception leaves the generator.
\<close>

theorem gemini_terminates_process_on_every_exit:
  assumes "on_popen w = Launched p" and "c \<noteq> Takes 0"
  shows "last (trace (fst (run_generator lib env w c Gemini_cli_stream message messages)))
           = Terminate
         \<and> filter (\<lambda>ev. ev = Terminate)
             (trace (fst (run_generator lib env w c Gemini_cli_stream message messages)))
           = [Terminate]
         \<and> hd (trace (fst (run_generator lib env w c Gemini_cli_stream message messages)))
           = Popen [environ_get env ''GEMINI_CMD'' ''gemini'', ''stream'', ''-m'',
                    environ_get env ''GEMINI_MODEL'' ''gemini-1.5-flash'', ''-p'', message]
         \<and> run_generator lib env (w\<lparr>on_popen := Launched (p\<lparr>terminate_raises := t\<rparr>)\<rparr>) c
               Gemini_cli_stream message messages
           = run_generator lib env w c Gemini_cli_stream message messages
         \<and> (stdout_end p = EOF \<longrightarrow>
              snd (run_generator lib env w c Gemini_cli_stream message messages) \<noteq> Raise e)"
proof -
  let ?run = "run_generator lib env w c Gemini_cli_stream message messages"
  let ?args = "[environ_get env ''GEMINI_CMD'' ''gemini'', ''stream'', ''-m'',
                environ_get env ''GEMINI_MODEL'' ''gemini-1.5-flash'', ''-p'', message]"
  let ?s = "effect (Popen ?args) \<lparr>trace = [], remaining = c\<rparr>"
  let ?loop = "gemini_lines (stdout_lines p) (stdout_end p) ?s"
  have run: "?run = (terminate_quietly p (fst ?loop), snd ?loop)"
    using gemini_launched [OF assms] by simp
  obtain ls' where "trace (fst ?loop) =
      trace ?s @ map (\<lambda>l. Yield (JDict [(''response'', JStr l)])) ls'"
    using gemini_lines_trace by blast
  then have tr: "trace (fst ?run) =
      Popen ?args # map (\<lambda>l. Yield (JDict [(''response'', JStr l)])) ls' @ [Terminate]"
    unfolding run by (simp add: trace_terminate_quietly trace_effect)
  have 1: "last (trace (fst ?run)) = Terminate" unfolding tr by simp
  have 2: "filter (\<lambda>ev. ev = Terminate) (trace (fst ?run)) = [Terminate]"
    unfolding tr by (simp add: filter_map comp_def)
  have 3: "hd (trace (fst ?run)) = Popen ?args" unfolding tr by simp
  have w': "on_popen (w\<lparr>on_popen := Launched (p\<lparr>terminate_raises := t\<rparr>)\<rparr>)
              = Launched (p\<lparr>terminate_raises := t\<rparr>)" by simp
  have 4: "run_generator lib env (w\<lparr>on_popen := Launched (p\<lparr>terminate_raises := t\<rparr>)\<rparr>) c
               Gemini_cli_stream message messages = ?run"
    unfolding run gemini_launched [OF w' assms(2)]
    by (simp add: terminate_quietly_independent)
  have 5: "stdout_end p = EOF \<Longrightarrow> snd ?run \<noteq> Raise e"
  proof
    assume "stdout_end p = EOF" and "snd ?run = Raise e"
    then have "snd ?loop = Raise e" unfolding run by simp
    from gemini_lines_exit [OF this] \<open>stdout_end p = EOF\<close> show False by simp
  qed
  from 1 2 3 4 5 show ?thesis by blast
qed

theorem gemini_terminates_process_on_every_exit_witness:
  "on_popen (sample_world (PostRaises TypeError)
       (Launched (sample_process [''1\<newline>'', ''2\<newline>''] EOF None)))
     = Launched (sample_process [''1\<newline>'', ''2\<newline>''] EOF None)
   \<and> Takes 1 \<noteq> Takes 0
   \<and> stdout_end (sample_process [''1\<newline>'', ''2\<newline>''] EOF None) = EOF
   \<and> run_generator sample_lib Map.empty
        (sample_world (PostRaises TypeError)
           (Launched (sample_process [''1\<newline>'', ''2\<newline>'']
                        EOF (Some (OSError ''no such process'')))))
        (Takes 1) Gemini_cli_stream ''count'' (JList [])
     = (\<lparr>trace = [Popen [''gemini'', ''stream'', ''-m'', ''gemini-1.5-flash'', ''-p'', ''count''],
                   Yield (JDict [(''response'', JStr ''1'')]), Terminate],
         remaining = Takes 1\<rparr>, GeneratorExit)"
proof -
  let ?p = "sample_process [''1\<newline>'', ''2\<newline>''] EOF None"
  let ?w = "sample_world (PostRaises TypeError) (Launched ?p)"
  have h1: "on_popen ?w = Launched ?p" by (simp add: sample_world_def)
  have h2: "Takes 1 \<noteq> Takes 0" by simp
  have h3: "stdout_end ?p = EOF" by (simp add: sample_process_def)
  have upd: "?w\<lparr>on_popen := Launched (?p\<lparr>terminate_raises := Some (OSError ''no such process'')\<rparr>)\<rparr>
             = sample_world (PostRaises TypeError)
                 (Launched (sample_process [''1\<newline>'', ''2\<newline>'']
                              EOF (Some (OSError ''no such process''))))"
    by (simp add: sample_world_def sample_process_def)
  have run: "run_generator sample_lib Map.empty ?w (Takes 1) Gemini_cli_stream ''count'' (JList [])
     = (\<lparr>trace = [Popen [''gemini'', ''stream'', ''-m'', ''gemini-1.5-flash'', ''-p'', ''count''],
                   Yield (JDict [(''response'', JStr ''1'')]), Terminate],
         remaining = Takes 1\<rparr>, GeneratorExit)"
    by (simp add: run_generator_def gemini_cli_stream_def sample_world_def sample_process_def
          environ_get_def rstrip_nl_def yield_def effect_def terminate_quietly_def)
  show ?thesis
    using gemini_terminates_process_on_every_exit
      [OF h1 h2, of sample_lib Map.empty "''count''" "JList []"
         "Some (OSError ''no such process'')"]
      h1 h3 run upd by simp
qed

text \<open>
  Claim C5. The claim wants every failure after the launch of the subprocess turned into a
  last \<^verbatim>\<open>{"error": ...}\<close> record, as \<^verbatim>\<open>ollama_stream\<close> does for its own failures. The
  \<^verbatim>\<open>try\<close> of \<^verbatim>\<open>gemini_cli_stream\<close> around the loop has a \<^verbatim>\<open>finally\<close> and no
  \<^verbatim>\<open>except\<close>: when reading the output of the process raises after the line \<^verbatim>\<open>1\<close>, the
  generator yields the one response record, terminates the process and lets the exception
  out; no error record is written.
\<close>

theorem gemini_read_failure_leaves_generator:
  "run_generator sample_lib Map.empty
     (sample_world (PostRaises TypeError)
        (Launched (sample_process [''1\<newline>'']
                     (ReadRaises (OtherException ''UnicodeDecodeError'')) None)))
     Drains Gemini_cli_stream ''count'' (JList [])
   = (\<lparr>trace = [Popen [''gemini'', ''stream'', ''-m'', ''gemini-1.5-flash'', ''-p'', ''count''],
                 Yield (JDict [(''response'', JStr ''1'')]), Terminate],
       remaining = Drains\<rparr>,
      Raise (OtherException ''UnicodeDecodeError''))"
  by (simp add: run_generator_def gemini_cli_stream_def sample_world_def sample_process_def
        environ_get_def rstrip_nl_def yield_def effect_def terminate_quietly_def)

section \<open>The HTTP adapter\<close>

subsection \<open>The loop of \<^verbatim>\<open>ollama_stream\<close>\<close>

lemma in_keys: "(k \<in> fst ` set kvs) = (map_of kvs k \<noteq> None)"
  by (simp add: map_of_eq_None_iff)

lemma fragment_record_dict: "fragment_record (JDict kvs) = Inr (extraction_rule kvs)"
  by (simp add: fragment_record_def extraction_rule_def field_def bindE_def py_or_def Let_def
        in_keys split: option.splits json.splits)

lemma fragment_done_dict: "fragment_done (JDict kvs) = Inr (truthy (field kvs ''done''))"
  by (simp add: fragment_done_def field_def bindE_def)

lemma ollama_lines_skip:
  "ld raw = None \<Longrightarrow>
   ollama_lines ld (pre @ raw # post) fin s = ollama_lines ld (pre @ post) fin s"
  by (induction pre arbitrary: s)
     (simp_all split: option.splits sum.splits prod.splits exit.splits)

lemma ollama_lines_step:
  assumes "ld raw = Some (JDict kvs)" and "raw \<noteq> []" and "remaining s = Drains"
  shows "ollama_lines ld (raw # rest) fin s =
           (if truthy (field kvs ''done'')
            then (s\<lparr>trace := trace s @ map Yield (emitted_records [kvs])\<rparr>, Finished)
            else ollama_lines ld rest fin
                   (s\<lparr>trace := trace s @ map Yield (emitted_records [kvs])\<rparr>))"
  using assms
  by (cases "extraction_rule kvs")
     (simp_all add: fragment_record_dict fragment_done_dict yield_Drains effect_def)

lemma emitted_records_Cons:
  "emitted_records (kvs # frags) =
     emitted_records [kvs] @ (if truthy (field kvs ''done'') then [] else emitted_records frags)"
  by simp

lemma ollama_lines_drained:
  assumes "remaining s = Drains" and "[] \<notin> set raws"
      and "map ld raws = map (\<lambda>kvs. Some (JDict kvs)) frags"
  shows "ollama_lines ld (raws @ rest) fin s =
           (if \<exists>kvs \<in> set frags. truthy (field kvs ''done'')
            then (s\<lparr>trace := trace s @ map Yield (emitted_records frags)\<rparr>, Finished)
            else ollama_lines ld rest fin
                   (s\<lparr>trace := trace s @ map Yield (emitted_records frags)\<rparr>))"
  using assms
proof (induction raws arbitrary: frags s)
  case Nil
  then show ?case by simp
next
  case (Cons raw raws)
  from Cons.prems(3) obtain kvs frags' where frags: "frags = kvs # frags'"
    and raw: "ld raw = Some (JDict kvs)"
    and raws: "map ld raws = map (\<lambda>kvs. Some (JDict kvs)) frags'"
    by (cases frags) auto
  from Cons.prems(2) have ne: "raw \<noteq> []" and nes: "[] \<notin> set raws" by auto
  let ?s = "s\<lparr>trace := trace s @ map Yield (emitted_records [kvs])\<rparr>"
  have r: "remaining ?s = Drains" using Cons.prems(1) by simp
  have step: "ollama_lines ld ((raw # raws) @ rest) fin s =
           (if truthy (field kvs ''done'') then (?s, Finished)
            else ollama_lines ld (raws @ rest) fin ?s)"
    using ollama_lines_step [of ld raw kvs s "raws @ rest" fin] raw ne Cons.prems(1) by simp
  show ?case
  proof (cases "truthy (field kvs ''done'')")
    case True
    then show ?thesis unfolding step frags by simp
  next
    case False
    have tr: "?s\<lparr>trace := trace ?s @ map Yield (emitted_records frags')\<rparr>
              = s\<lparr>trace := trace s @ map Yield (emitted_records frags)\<rparr>"
      unfolding frags emitted_records_Cons [of kvs frags'] using False by simp
    show ?thesis
      unfolding step using False Cons.IH [OF r nes raws] tr by (simp add: frags)
  qed
qed

text \<open>Whatever the consumer does, the loop adds no yield of an error record.\<close>

lemma fragment_record_no_error:
  "fragment_record j = Inr (Some obj) \<Longrightarrow> \<not> is_error_record obj"
  by (auto simp: fragment_record_def bindE_def Let_def split: sum.splits if_splits)

lemma ollama_lines_trace:
  "\<exists>evs. trace (fst (ollama_lines ld raws fin s)) = trace s @ evs \<and>
         list_all no_error_yield evs"
proof (induction raws arbitrary: s)
  case Nil
  show ?case by simp
next
  case (Cons raw raws)
  show ?case
  proof (cases "raw = [] \<or> ld raw = None")
    case True
    then show ?thesis using Cons [of s] by auto
  next
    case False
    then obtain j where ne: "raw \<noteq> []" and j: "ld raw = Some j" by auto
    show ?thesis
    proof (cases "fragment_record j")
      case (Inl e)
      then show ?thesis using ne j by simp
    next
      case (Inr out)
      show ?thesis
      proof (cases out)
        case None
        show ?thesis
        proof (cases "fragment_done j")
          case (Inl e)
          then show ?thesis using ne j Inr None by simp
        next
          case d: (Inr d)
          then show ?thesis using ne j Inr None Cons [of s] by simp
        qed
      next
        case (Some obj)
        obtain s' x where y: "yield obj s = (s', x)" by (cases "yield obj s") blast
        from yield_cases [OF y] have tr: "trace s' = trace s @ [Yield obj]"
          and x: "x = Finished \<or> x = GeneratorExit" by simp_all
        have ok: "no_error_yield (Yield obj)"
          using fragment_record_no_error Inr Some by simp
        from Cons [of s'] obtain evs where
          evs: "trace (fst (ollama_lines ld raws fin s')) = trace s' @ evs"
               "list_all no_error_yield evs" by blast
        have a: "trace s' = trace s @ [Yield obj] \<and> list_all no_error_yield [Yield obj]"
          using tr ok by simp
        have b: "trace (fst (ollama_lines ld raws fin s')) = trace s @ (Yield obj # evs) \<and>
                 list_all no_error_yield (Yield obj # evs)"
          using tr ok evs by simp
        from x show ?thesis
        proof
          assume "x = GeneratorExit"
          then have "fst (ollama_lines ld (raw # raws) fin s) = s'"
            using ne j Inr Some y by simp
          then show ?thesis using a by metis
        next
          assume fin: "x = Finished"
          show ?thesis
          proof (cases "fragment_done j")
            case (Inl e)
            then have "fst (ollama_lines ld (raw # raws) fin s) = s'"
              using ne j Inr Some y fin by simp
            then show ?thesis using a by metis
          next
            case d: (Inr d)
            show ?thesis
            proof (cases d)
              case True
              then have "fst (ollama_lines ld (raw # raws) fin s) = s'"
                using ne j Inr Some y fin d by simp
              then show ?thesis using a by metis
            next
              case False
              then have "fst (ollama_lines ld (raw # raws) fin s)
                         = fst (ollama_lines ld raws fin s')"
                using ne j Inr Some y fin d by simp
              then show ?thesis using b by metis
            qed
          qed
        qed
      qed
    qed
  qed
qed

subsection \<open>The generator \<^verbatim>\<open>ollama_stream\<close>\<close>

lemma ollama_request_listed:
  "py_list messages = Inr hist \<Longrightarrow>
   \<exists>url payload. ollama_request env message messages = Inr (url, payload)"
  by (simp add: ollama_request_def bindE_def Let_def)

lemma ollama_try_responded:
  assumes "on_post w = Responded r" and "raise_for_status r = Inr ()"
      and "ollama_request env message messages = Inr (url, payload)"
  shows "ollama_try lib env w message messages s =
           (effect CloseResponse
              (fst (ollama_lines (loads lib) (body_lines r) (body_end r)
                      (effect (Post url payload) s))),
            snd (ollama_lines (loads lib) (body_lines r) (body_end r)
                   (effect (Post url payload) s)))"
  using assms by (simp add: ollama_try_def split: prod.splits)

lemma ollama_try_skip:
  assumes "on_post w = Responded r" and "body_lines r = pre @ raw # post"
      and "loads lib raw = None"
  shows "ollama_try lib env (w\<lparr>on_post := Responded (r\<lparr>body_lines := pre @ post\<rparr>)\<rparr>)
           message messages s
         = ollama_try lib env w message messages s"
  using assms
  by (simp add: ollama_try_def raise_for_status_def ollama_lines_skip
        split: sum.splits prod.splits)

lemma ollama_try_trace:
  "\<exists>evs. trace (fst (ollama_try lib env w message messages s)) = trace s @ evs \<and>
         list_all no_error_yield evs"
proof (cases "ollama_request env message messages")
  case (Inl e)
  then show ?thesis by (simp add: ollama_try_def)
next
  case (Inr req)
  obtain url payload where req: "req = (url, payload)" by (cases req) blast
  show ?thesis
  proof (cases "on_post w")
    case (PostRaises e)
    then have "trace (fst (ollama_try lib env w message messages s))
               = trace s @ [Post url payload]"
      using Inr req by (simp add: ollama_try_def trace_effect)
    moreover have "list_all no_error_yield [Post url payload]" by simp
    ultimately show ?thesis by blast
  next
    case (Responded r)
    show ?thesis
    proof (cases "raise_for_status r")
      case e: (Inl e)
      then have "trace (fst (ollama_try lib env w message messages s))
                 = trace s @ [Post url payload, CloseResponse]"
        using Inr req Responded by (simp add: ollama_try_def trace_effect)
      moreover have "list_all no_error_yield [Post url payload, CloseResponse]" by simp
      ultimately show ?thesis by blast
    next
      case u: (Inr u)
      obtain evs where evs:
        "trace (fst (ollama_lines (loads lib) (body_lines r) (body_end r)
                       (effect (Post url payload) s)))
         = trace (effect (Post url payload) s) @ evs"
        "list_all no_error_yield evs"
        using ollama_lines_trace by blast
      have "trace (fst (ollama_try lib env w message messages s))
            = trace s @ (Post url payload # evs @ [CloseResponse])"
      proof -
        have "raise_for_status r = Inr ()" using u by simp
        from ollama_try_responded [OF Responded this, of env message messages url payload lib s]
        show ?thesis using Inr req evs(1) by (simp add: trace_effect)
      qed
      moreover have "list_all no_error_yield (Post url payload # evs @ [CloseResponse])"
        using evs(2) by simp
      ultimately show ?thesis by blast
    qed
  qed
qed

text \<open>
  The shape of every run: events that are no error records, then at most one more record,
  after which the generator has returned or been closed.
\<close>

lemma ollama_stream_shape:
  "\<exists>evs tail. trace (fst (ollama_stream lib env w message messages s)) = trace s @ evs @ tail \<and>
     list_all no_error_yield evs \<and> (tail = [] \<or> (\<exists>obj. tail = [Yield obj])) \<and>
     snd (ollama_stream lib env w message messages s) \<in> {Finished, GeneratorExit}"
proof -
  obtain s1 x1 where t: "ollama_try lib env w message messages s = (s1, x1)"
    by (cases "ollama_try lib env w message messages s") blast
  from ollama_try_trace [of lib env w message messages s] t
  obtain evs where evs: "trace s1 = trace s @ evs" "list_all no_error_yield evs" by auto
  show ?thesis
  proof (cases x1)
    case Finished
    then have "ollama_stream lib env w message messages s = (s1, Finished)"
      using t by (simp add: ollama_stream_def)
    then show ?thesis using evs by auto
  next
    case GeneratorExit
    then have "ollama_stream lib env w message messages s = (s1, GeneratorExit)"
      using t by (simp add: ollama_stream_def)
    then show ?thesis using evs by auto
  next
    case (Raise e)
    let ?err = "JDict [(''error'', JStr (''ollama stream failed: '' @ str_exc lib e))]"
    obtain s2 x2 where y: "yield ?err s1 = (s2, x2)" by (cases "yield ?err s1") blast
    from Raise t y have run: "ollama_stream lib env w message messages s = (s2, x2)"
      by (simp add: ollama_stream_def)
    from yield_cases [OF y] have "trace s2 = trace s @ evs @ [Yield ?err]"
      and "x2 \<in> {Finished, GeneratorExit}" using evs(1) by auto
    then show ?thesis unfolding run using evs(2) by auto
  qed
qed

subsection \<open>Both generators\<close>

lemma gemini_popen_raises:
  assumes "on_popen w = PopenRaises e" and "c \<noteq> Takes 0"
  shows "trace (fst (run_generator lib env w c Gemini_cli_stream message messages))
         = [Popen [environ_get env ''GEMINI_CMD'' ''gemini'', ''stream'', ''-m'',
                   environ_get env ''GEMINI_MODEL'' ''gemini-1.5-flash'', ''-p'', message],
            Yield (JDict [(''error'', JStr (''failed to start gemini cli: '' @ str_exc lib e))])]
         \<and> snd (run_generator lib env w c Gemini_cli_stream message messages)
             \<in> {Finished, GeneratorExit}"
  using assms
  by (simp add: run_generator_def gemini_cli_stream_def Let_def yield_def effect_def
        split: option.splits)

lemma run_generator_shape:
  "\<exists>evs tail. trace (fst (run_generator lib env w c g message messages)) = evs @ tail \<and>
     list_all no_error_yield evs \<and>
     (tail = [] \<or> (\<exists>obj. tail = [Yield obj] \<and>
         snd (run_generator lib env w c g message messages) \<in> {Finished, GeneratorExit}))"
proof (cases "c = Takes 0")
  case True
  then show ?thesis by (simp add: run_generator_def)
next
  case False
  show ?thesis
  proof (cases g)
    case Ollama_stream
    from ollama_stream_shape [of lib env w message messages "\<lparr>trace = [], remaining = c\<rparr>"]
    show ?thesis using False Ollama_stream by (simp add: run_generator_def) blast
  next
    case Gemini_cli_stream
    show ?thesis
    proof (cases "on_popen w")
      case (PopenRaises e)
      let ?args = "[environ_get env ''GEMINI_CMD'' ''gemini'', ''stream'', ''-m'',
                    environ_get env ''GEMINI_MODEL'' ''gemini-1.5-flash'', ''-p'', message]"
      let ?err = "JDict [(''error'', JStr (''failed to start gemini cli: '' @ str_exc lib e))]"
      from gemini_popen_raises [OF PopenRaises False, of lib env message messages]
      have "trace (fst (run_generator lib env w c g message messages))
              = [Popen ?args] @ [Yield ?err]"
        and "snd (run_generator lib env w c g message messages) \<in> {Finished, GeneratorExit}"
        using Gemini_cli_stream by simp_all
      moreover have "list_all no_error_yield [Popen ?args]" by simp
      ultimately show ?thesis by blast
    next
      case (Launched p)
      let ?args = "[environ_get env ''GEMINI_CMD'' ''gemini'', ''stream'', ''-m'',
                    environ_get env ''GEMINI_MODEL'' ''gemini-1.5-flash'', ''-p'', message]"
      let ?s = "effect (Popen ?args) \<lparr>trace = [], remaining = c\<rparr>"
      obtain ls' where "trace (fst (gemini_lines (stdout_lines p) (stdout_end p) ?s)) =
          trace ?s @ map (\<lambda>l. Yield (JDict [(''response'', JStr l)])) ls'"
        using gemini_lines_trace by blast
      then have tr: "trace (fst (run_generator lib env w c g message messages)) =
          (Popen ?args # map (\<lambda>l. Yield (JDict [(''response'', JStr l)])) ls' @ [Terminate]) @ []"
        using gemini_launched [OF Launched False, of lib env message messages] Gemini_cli_stream
        by (simp add: trace_terminate_quietly trace_effect)
      have "list_all no_error_yield
              (Popen ?args # map (\<lambda>l. Yield (JDict [(''response'', JStr l)])) ls' @ [Terminate])"
        by (simp add: list_all_iff)
      with tr show ?thesis by blast
    qed
  qed
qed

lemma error_yield_is_last:
  assumes "evs @ tail = pre @ Yield obj # post" and "list_all no_error_yield evs"
      and "is_error_record obj" and "tail = [] \<or> (\<exists>obj'. tail = [Yield obj'] \<and> P)"
  shows "post = [] \<and> P"
proof -
  have notin: "Yield obj \<notin> set evs"
    using assms(2,3) by (auto simp: list_all_iff)
  from assms(4) show ?thesis
  proof
    assume "tail = []"
    then have "Yield obj \<in> set evs" using assms(1) by simp
    with notin show ?thesis by simp
  next
    assume "\<exists>obj'. tail = [Yield obj'] \<and> P"
    then obtain obj' where tail: "tail = [Yield obj']" and P by blast
    show ?thesis
    proof (cases post rule: rev_cases)
      case Nil
      with \<open>P\<close> show ?thesis by simp
    next
      case (snoc post' z)
      then have "evs @ [Yield obj'] = (pre @ Yield obj # post') @ [z]"
        using assms(1) tail by simp
      then have "evs = pre @ Yield obj # post'" by (simp only: append1_eq_conv)
      then have "Yield obj \<in> set evs" by simp
      with notin show ?thesis by simp
    qed
  qed
qed

end
